theory Spec2Isabelle
  imports Main
begin

section \<open>Strings of the host language\<close>

text \<open>
  Names are JavaScript strings. They are modelled as \<^typ>\<open>string\<close>, each
  \<^typ>\<open>char\<close> standing for one code unit in the range U+0000..U+00FF, on which
  \<open>toLowerCase\<close>, \<open>toUpperCase\<close> and \<open>trim\<close> act character by character.
  The separator of the source is the one-character constant \<open>'/'\<close>, so \<open>split\<close>
  and \<open>join\<close> take a character.
\<close>

definition MODES_LIGHT :: string where
  "MODES_LIGHT = ''light''"

definition MODES_DARK :: string where
  "MODES_DARK = ''dark''"

definition NAMING_SEPARATOR :: char where
  "NAMING_SEPARATOR = CHR ''/''"

text \<open>\<open>s.split(sep)\<close>: the segments between the occurrences of \<open>sep\<close>; never empty.\<close>

fun split :: "char \<Rightarrow> string \<Rightarrow> string list" where
  "split sep [] = [[]]"
| "split sep (c # cs) =
     (if c = sep then [] # split sep cs
      else (case split sep cs of
              p # ps \<Rightarrow> (c # p) # ps
            | [] \<Rightarrow> [[c]]))"

text \<open>\<open>parts.join(sep)\<close>.\<close>

fun join :: "char \<Rightarrow> string list \<Rightarrow> string" where
  "join sep [] = []"
| "join sep [p] = p"
| "join sep (p # q # ps) = p @ sep # join sep (q # ps)"

text \<open>
  The letters of U+0000..U+00FF that have a lower-case and an upper-case form inside
  the range: A..Z with a..z, and U+00C0..U+00DE (without the multiplication sign
  U+00D7) with U+00E0..U+00FE (without the division sign U+00F7).
\<close>

definition upperChars :: string where
  "upperChars = ''ABCDEFGHIJKLMNOPQRSTUVWXYZ'' @
     [
      CHR 0xC0, CHR 0xC1, CHR 0xC2, CHR 0xC3, CHR 0xC4, CHR 0xC5, CHR 0xC6, CHR 0xC7,
      CHR 0xC8, CHR 0xC9, CHR 0xCA, CHR 0xCB, CHR 0xCC, CHR 0xCD, CHR 0xCE, CHR 0xCF,
      CHR 0xD0, CHR 0xD1, CHR 0xD2, CHR 0xD3, CHR 0xD4, CHR 0xD5, CHR 0xD6, CHR 0xD8,
      CHR 0xD9, CHR 0xDA, CHR 0xDB, CHR 0xDC, CHR 0xDD, CHR 0xDE]"

definition lowerChars :: string where
  "lowerChars = ''abcdefghijklmnopqrstuvwxyz'' @
     [
      CHR 0xE0, CHR 0xE1, CHR 0xE2, CHR 0xE3, CHR 0xE4, CHR 0xE5, CHR 0xE6, CHR 0xE7,
      CHR 0xE8, CHR 0xE9, CHR 0xEA, CHR 0xEB, CHR 0xEC, CHR 0xED, CHR 0xEE, CHR 0xEF,
      CHR 0xF0, CHR 0xF1, CHR 0xF2, CHR 0xF3, CHR 0xF4, CHR 0xF5, CHR 0xF6, CHR 0xF8,
      CHR 0xF9, CHR 0xFA, CHR 0xFB, CHR 0xFC, CHR 0xFD, CHR 0xFE]"

definition toLowerCase_char :: "char \<Rightarrow> char" where
  "toLowerCase_char c =
     (case map_of (zip upperChars lowerChars) c of Some d \<Rightarrow> d | None \<Rightarrow> c)"

definition toLowerCase :: "string \<Rightarrow> string" where
  "toLowerCase s = map toLowerCase_char s"

text \<open>\<open>toUpperCase\<close> of one character (the source applies it to \<open>charAt(0)\<close>).\<close>

definition toUpperCase_char :: "char \<Rightarrow> char" where
  "toUpperCase_char c =
     (case map_of (zip lowerChars upperChars) c of Some d \<Rightarrow> d | None \<Rightarrow> c)"

text \<open>
  The white space that \<open>trim\<close> removes, in the range: TAB, LF, VT, FF, CR, SPACE and
  the no-break space U+00A0.
\<close>

definition whiteSpaceChars :: string where
  "whiteSpaceChars =
     [CHR 0x09, CHR 0x0A, CHR 0x0B, CHR 0x0C, CHR 0x0D, CHR 0x20, CHR 0xA0]"

definition isWhiteSpace :: "char \<Rightarrow> bool" where
  "isWhiteSpace c = (c \<in> set whiteSpaceChars)"

definition trim :: "string \<Rightarrow> string" where
  "trim s = rev (dropWhile isWhiteSpace (rev (dropWhile isWhiteSpace s)))"

section \<open>The naming convention\<close>

text \<open>
  \<open>detectCurrentMode(layer)\<close> is only ever called on \<open>{ name: () => currentName }\<close>,
  so the model takes the name. \<open>null\<close> is \<open>None\<close>.
\<close>

definition detectCurrentMode :: "string \<Rightarrow> string option" where
  "detectCurrentMode name =
     (let parts = split NAMING_SEPARATOR name
      in if 2 \<le> length parts
         then (let modePart = trim (toLowerCase (parts ! 1))
               in if modePart = MODES_LIGHT \<or> modePart = MODES_DARK
                  then Some modePart else None)
         else None)"

definition buildTargetName :: "string \<Rightarrow> string \<Rightarrow> string" where
  "buildTargetName currentName targetMode =
     (let parts = split NAMING_SEPARATOR currentName
      in if 2 \<le> length parts
         then join NAMING_SEPARATOR (parts[1 := targetMode])
         else currentName)"

text \<open>
  The historical form of the convention, \<open>[component] / [mode] / [variant]\<close> with a
  space on each side of the slash, as the repository's older documents write it.
\<close>

definition legacyName :: "string \<Rightarrow> string \<Rightarrow> string \<Rightarrow> string" where
  "legacyName component mode variant = component @ '' / '' @ mode @ '' / '' @ variant"

section \<open>The document and its layers\<close>

text \<open>
  The host objects. A shared style and a symbol master are catalog entries of the
  document; a layer refers to at most one of each. The direct style properties and the
  overrides of a layer are opaque values.
\<close>

record shared_style =
  style_id :: string
  style_name :: string
  style_props :: string

record symbol_master =
  symbol_id :: string
  symbol_name :: string

record document =
  sharedTextStyles :: "shared_style list"
  sharedLayerStyles :: "shared_style list"
  allSymbols :: "symbol_master list"

text \<open>
  The calls the plugin makes on a layer (or on its wrapper from \<open>sketch.fromNative\<close>).
  Any of them may fault: a layer lists the calls that throw on it, each with the
  message of the error thrown. Calls on the catalogs and on the selection do not fault.
\<close>

datatype host_call =
    Call_name
  | Call_class
  | Call_fromNative
  | Call_documentData
  | Call_sharedStyle
  | Call_style
  | Call_symbolMaster
  | Call_layers
  | Call_overrides
  | Call_changeInstanceToSymbol
  | Call_setOverrides
  | Call_setSharedStyle
  | Call_setStyle

text \<open>
  A layer: its name, the name of its class, the shared style applied to it, its direct
  style properties, its symbol master (symbol instances only), its overrides, its child
  layers (empty for a layer that has none or has no \<open>layers\<close> method), and its
  faulting calls.
\<close>

datatype layer =
  Layer (layer_name: string) (layer_class: string)
        (sharedStyle: "shared_style option") (style: string)
        (symbolMaster: "symbol_master option") (overrides: "string option")
        (layers: "layer list") (faults: "(host_call \<times> string) list")

fun set_sharedStyle :: "layer \<Rightarrow> shared_style option \<Rightarrow> layer" where
  "set_sharedStyle (Layer n c ss st sm ov cs fl) v = Layer n c v st sm ov cs fl"

fun set_style :: "layer \<Rightarrow> string \<Rightarrow> layer" where
  "set_style (Layer n c ss st sm ov cs fl) v = Layer n c ss v sm ov cs fl"

fun changeInstanceToSymbol :: "layer \<Rightarrow> symbol_master \<Rightarrow> layer" where
  "changeInstanceToSymbol (Layer n c ss st sm ov cs fl) v = Layer n c ss st (Some v) ov cs fl"

fun setOverrides :: "layer \<Rightarrow> string \<Rightarrow> layer" where
  "setOverrides (Layer n c ss st sm ov cs fl) v = Layer n c ss st sm (Some v) cs fl"

fun set_layers :: "layer \<Rightarrow> layer list \<Rightarrow> layer" where
  "set_layers (Layer n c ss st sm ov cs fl) v = Layer n c ss st sm ov v fl"

definition fault_of :: "layer \<Rightarrow> host_call \<Rightarrow> string option" where
  "fault_of layer call = map_of (faults layer) call"

text \<open>The first of a sequence of calls on a layer that throws, if any.\<close>

fun first_fault :: "layer \<Rightarrow> host_call list \<Rightarrow> string option" where
  "first_fault layer [] = None"
| "first_fault layer (c # cs) =
     (case fault_of layer c of Some e \<Rightarrow> Some e | None \<Rightarrow> first_fault layer cs)"

text \<open>The result object \<open>{ switched, skipped }\<close>.\<close>

record result =
  switched :: nat
  skipped :: nat

definition add_result :: "result \<Rightarrow> result \<Rightarrow> result" where
  "add_result r x = \<lparr>switched = switched r + switched x, skipped = skipped r + skipped x\<rparr>"

text \<open>
  The plugin context: the selected layers, the document they belong to, and the
  messages the plugin has passed to \<open>context.document.showMessage\<close>, oldest first.
  The selected layers are taken to be disjoint subtrees of the page.
\<close>

record plugin_context =
  selection :: "layer list"
  doc :: document
  shown :: "string list"

text \<open>\<open>showMessage\<close>: a fault of the host's message box is swallowed by the source.\<close>

definition showMessage :: "plugin_context \<Rightarrow> string \<Rightarrow> plugin_context" where
  "showMessage ctx message = ctx\<lparr>shown := shown ctx @ [message]\<rparr>"

section \<open>The switching engine\<close>

text \<open>
  \<open>findSymbolByName\<close> scans \<open>allSymbols()\<close> for the first symbol of the given name.
  The source passes it \<open>symbolInstance.documentData()\<close> and calls \<open>documentData()\<close>
  on that once more; the model takes both to give the document's catalogs.
\<close>

definition findSymbolByName :: "document \<Rightarrow> string \<Rightarrow> symbol_master option" where
  "findSymbolByName d symbolName = find (\<lambda>symbol. symbol_name symbol = symbolName) (allSymbols d)"

text \<open>
  \<open>switchSymbolMode\<close>. Every fault inside its \<open>try\<close> ends in the \<open>catch\<close> that
  sets \<open>skipped = 1\<close>; what was assigned before the fault stays assigned.
\<close>

definition switchSymbolMode :: "document \<Rightarrow> layer \<Rightarrow> string \<Rightarrow> layer \<times> result" where
  "switchSymbolMode d symbolInstance targetMode =
     (case fault_of symbolInstance Call_symbolMaster of
        Some e \<Rightarrow> (symbolInstance, \<lparr>switched = 0, skipped = 1\<rparr>)
      | None \<Rightarrow>
         (case symbolMaster symbolInstance of
            None \<Rightarrow>
              (case fault_of symbolInstance Call_name of
                 Some e \<Rightarrow> (symbolInstance, \<lparr>switched = 0, skipped = 1\<rparr>)
               | None \<Rightarrow> (symbolInstance, \<lparr>switched = 0, skipped = 0\<rparr>))
          | Some currentSymbol \<Rightarrow>
              (let currentName = symbol_name currentSymbol;
                   currentMode = detectCurrentMode currentName
               in if currentMode = Some targetMode
                  then (symbolInstance, \<lparr>switched = 0, skipped = 1\<rparr>)
                  else
                    (let targetSymbolName = buildTargetName currentName targetMode
                     in case fault_of symbolInstance Call_documentData of
                          Some e \<Rightarrow> (symbolInstance, \<lparr>switched = 0, skipped = 1\<rparr>)
                        | None \<Rightarrow>
                           (case findSymbolByName d targetSymbolName of
                              None \<Rightarrow> (symbolInstance, \<lparr>switched = 0, skipped = 1\<rparr>)
                            | Some targetSymbol \<Rightarrow>
                               (case first_fault symbolInstance
                                       [Call_overrides, Call_changeInstanceToSymbol] of
                                  Some e \<Rightarrow> (symbolInstance, \<lparr>switched = 0, skipped = 1\<rparr>)
                                | None \<Rightarrow>
                                   (let switchedInstance =
                                          changeInstanceToSymbol symbolInstance targetSymbol
                                    in case overrides symbolInstance of
                                         None \<Rightarrow>
                                           (switchedInstance, \<lparr>switched = 1, skipped = 0\<rparr>)
                                       | Some ov \<Rightarrow>
                                           (case fault_of symbolInstance Call_setOverrides of
                                              Some e \<Rightarrow>
                                                (switchedInstance,
                                                 \<lparr>switched = 0, skipped = 1\<rparr>)
                                            | None \<Rightarrow>
                                                (setOverrides switchedInstance ov,
                                                 \<lparr>switched = 1, skipped = 0\<rparr>)))))))))"

text \<open>
  The part of \<open>switchLayerStyle\<close> that its text branch and its layer branch share,
  from the test of \<open>sharedStyle\<close> on: the branches differ in the catalog searched.
\<close>

definition switchSharedStyle :: "shared_style list \<Rightarrow> layer \<Rightarrow> string \<Rightarrow> layer \<times> result" where
  "switchSharedStyle catalog layer targetMode =
     (case sharedStyle layer of
        None \<Rightarrow> (layer, \<lparr>switched = 0, skipped = 1\<rparr>)
      | Some current \<Rightarrow>
         (let currentName = style_name current;
              currentMode = detectCurrentMode currentName
          in if currentMode \<noteq> None \<and> currentMode \<noteq> Some targetMode
             then
               (let targetStyleName = buildTargetName currentName targetMode
                in case find (\<lambda>style. style_name style = targetStyleName) catalog of
                     None \<Rightarrow> (layer, \<lparr>switched = 0, skipped = 1\<rparr>)
                   | Some targetStyle \<Rightarrow>
                      (case fault_of layer Call_setSharedStyle of
                         Some e \<Rightarrow> (layer, \<lparr>switched = 0, skipped = 1\<rparr>)
                       | None \<Rightarrow>
                          (let restyled = set_sharedStyle layer (Some targetStyle)
                           in case fault_of layer Call_setStyle of
                                Some e \<Rightarrow> (restyled, \<lparr>switched = 0, skipped = 1\<rparr>)
                              | None \<Rightarrow>
                                 (set_style restyled (style_props targetStyle),
                                  \<lparr>switched = 1, skipped = 0\<rparr>))))
             else if currentMode = Some targetMode
             then (layer, \<lparr>switched = 0, skipped = 1\<rparr>)
             else (layer, \<lparr>switched = 0, skipped = 1\<rparr>)))"

definition switchLayerStyle :: "document \<Rightarrow> layer \<Rightarrow> string \<Rightarrow> layer \<times> result" where
  "switchLayerStyle d layer targetMode =
     (case fault_of layer Call_class of
        Some e \<Rightarrow> (layer, \<lparr>switched = 0, skipped = 1\<rparr>)
      | None \<Rightarrow>
         if layer_class layer = ''MSTextLayer''
         then
           (case first_fault layer
                   [Call_name, Call_fromNative, Call_sharedStyle, Call_documentData, Call_style] of
              Some e \<Rightarrow> (layer, \<lparr>switched = 0, skipped = 1\<rparr>)
            | None \<Rightarrow> switchSharedStyle (sharedTextStyles d) layer targetMode)
         else
           (case first_fault layer
                   [Call_name, Call_fromNative, Call_sharedStyle, Call_documentData, Call_style] of
              Some e \<Rightarrow> (layer, \<lparr>switched = 0, skipped = 1\<rparr>)
            | None \<Rightarrow> switchSharedStyle (sharedLayerStyles d) layer targetMode))"

text \<open>\<open>s.includes(sub)\<close>.\<close>

fun includes_str :: "string \<Rightarrow> string \<Rightarrow> bool" where
  "includes_str [] sub = (sub = [])"
| "includes_str (c # cs) sub = (take (length sub) (c # cs) = sub \<or> includes_str cs sub)"

text \<open>
  The test \<open>isSymbolInstance\<close> of \<open>processCurrentLayer\<close> and \<open>findModeInLayer\<close>.
  The class is known by its name; \<open>layer.symbolMaster()\<close> is only called when the
  class tests fail, and may throw.
\<close>

definition isSymbolInstance :: "layer \<Rightarrow> string + bool" where
  "isSymbolInstance layer =
     (if layer_class layer = ''MSSymbolInstance'' \<or> includes_str (layer_class layer) ''MSSymbolInstance''
      then Inr True
      else (case fault_of layer Call_symbolMaster of
              Some e \<Rightarrow> Inl e
            | None \<Rightarrow> Inr (symbolMaster layer \<noteq> None)))"

text \<open>
  The \<open>catch\<close> blocks of \<open>processCurrentLayer\<close> and \<open>processLayer\<close> log
  \<open>layer.name()\<close>: if that call throws, the error leaves the function (\<open>Inl\<close>);
  otherwise the function returns its result object as it stands.
\<close>

definition catch_log_name :: "layer \<Rightarrow> result \<Rightarrow> string + result" where
  "catch_log_name layer r =
     (case fault_of layer Call_name of Some e \<Rightarrow> Inl e | None \<Rightarrow> Inr r)"

definition processCurrentLayer :: "document \<Rightarrow> layer \<Rightarrow> string \<Rightarrow> layer \<times> (string + result)" where
  "processCurrentLayer d layer targetMode =
     (case first_fault layer [Call_name, Call_class] of
        Some e \<Rightarrow> (layer, catch_log_name layer \<lparr>switched = 0, skipped = 0\<rparr>)
      | None \<Rightarrow>
         (case switchLayerStyle d layer targetMode of
            (styled, styleResult) \<Rightarrow>
              (let r = add_result \<lparr>switched = 0, skipped = 0\<rparr> styleResult
               in if switched r = 0
                  then
                    (case isSymbolInstance styled of
                       Inl e \<Rightarrow> (styled, catch_log_name styled r)
                     | Inr False \<Rightarrow> (styled, Inr r)
                     | Inr True \<Rightarrow>
                         (case switchSymbolMode d styled targetMode of
                            (switchedLayer, symbolResult) \<Rightarrow>
                              (switchedLayer, Inr (add_result r symbolResult))))
                  else (styled, Inr r))))"

text \<open>
  \<open>processLayer\<close>, and the loop \<open>for (i ...) { r = processLayer(xs.objectAtIndex(i),
  targetMode); total += r }\<close> that the source runs over the children of a layer and
  over the selection. The loop returns the layers as they are when it ends, the result
  accumulated so far, and the error that ended it early, if one did.
\<close>

fun processLayer :: "document \<Rightarrow> string \<Rightarrow> layer \<Rightarrow> layer \<times> (string + result)"
  and processLayers ::
    "document \<Rightarrow> string \<Rightarrow> layer list \<Rightarrow> result \<Rightarrow> layer list \<times> result \<times> string option"
where
  "processLayer d targetMode (Layer n c ss st sm ov cs fl) =
     (case processCurrentLayer d (Layer n c ss st sm ov cs fl) targetMode of
        (layer, Inl e) \<Rightarrow> (layer, catch_log_name layer \<lparr>switched = 0, skipped = 0\<rparr>)
      | (layer, Inr layerResult) \<Rightarrow>
          (let r = add_result \<lparr>switched = 0, skipped = 0\<rparr> layerResult
           in case fault_of layer Call_layers of
                Some e \<Rightarrow> (layer, catch_log_name layer r)
              | None \<Rightarrow>
                 (case processLayers d targetMode cs r of
                    (children, r', Some e) \<Rightarrow> (set_layers layer children, catch_log_name layer r')
                  | (children, r', None) \<Rightarrow> (set_layers layer children, Inr r'))))"
| "processLayers d targetMode [] r = ([], r, None)"
| "processLayers d targetMode (child # rest) r =
     (case processLayer d targetMode child of
        (child', Inl e) \<Rightarrow> (child' # rest, r, Some e)
      | (child', Inr childResult) \<Rightarrow>
          (case processLayers d targetMode rest (add_result r childResult) of
             (rest', r', err) \<Rightarrow> (child' # rest', r', err)))"

section \<open>Entry points\<close>

text \<open>\<open>targetMode.charAt(0).toUpperCase() + targetMode.slice(1)\<close>.\<close>

definition modeText :: "string \<Rightarrow> string" where
  "modeText targetMode =
     (case targetMode of [] \<Rightarrow> [] | c # cs \<Rightarrow> toUpperCase_char c # cs)"

text \<open>A count as a template literal prints it: in decimal.\<close>

fun nat_to_string :: "nat \<Rightarrow> string" where
  "nat_to_string n =
     (if n < 10 then [''0123456789'' ! n]
      else nat_to_string (n div 10) @ [''0123456789'' ! (n mod 10)])"

declare nat_to_string.simps [simp del]

definition switchMode :: "plugin_context \<Rightarrow> string \<Rightarrow> plugin_context" where
  "switchMode ctx targetMode =
     (if selection ctx = []
      then showMessage ctx ''Please select layers to switch modes''
      else
        (case processLayers (doc ctx) targetMode (selection ctx) \<lparr>switched = 0, skipped = 0\<rparr> of
           (processed, totals, Some e) \<Rightarrow>
             showMessage (ctx\<lparr>selection := processed\<rparr>) (''Error: '' @ e)
         | (processed, totals, None) \<Rightarrow>
             showMessage (ctx\<lparr>selection := processed\<rparr>)
               (''Switched to '' @ modeText targetMode @ '' Mode: '' @
                nat_to_string (switched totals) @ '' changed, '' @
                nat_to_string (skipped totals) @ '' skipped'')))"

text \<open>
  The three tests of \<open>findModeInLayer\<close> on the layer itself. Each returns the mode
  it found, if any (\<open>Inr\<close>), or the error that sends the function to its \<open>catch\<close>,
  which returns \<open>null\<close>.
\<close>

definition findMode_textStyle :: "layer \<Rightarrow> string + string option" where
  "findMode_textStyle layer =
     (if layer_class layer = ''MSTextLayer''
      then (case fault_of layer Call_sharedStyle of
              Some e \<Rightarrow> Inl e
            | None \<Rightarrow>
               (case sharedStyle layer of
                  None \<Rightarrow> Inr None
                | Some current \<Rightarrow> Inr (detectCurrentMode (style_name current))))
      else Inr None)"

definition findMode_layerStyle :: "document \<Rightarrow> layer \<Rightarrow> string + string option" where
  "findMode_layerStyle d layer =
     (case fault_of layer Call_style of
        Some e \<Rightarrow> Inl e
      | None \<Rightarrow>
         (case sharedStyle layer of
            None \<Rightarrow> Inr None
          | Some applied \<Rightarrow>
             (case fault_of layer Call_documentData of
                Some e \<Rightarrow> Inl e
              | None \<Rightarrow>
                 (case find (\<lambda>x. style_id x = style_id applied) (sharedLayerStyles d) of
                    None \<Rightarrow> Inr None
                  | Some currentStyle \<Rightarrow> Inr (detectCurrentMode (style_name currentStyle))))))"

definition findMode_symbol :: "layer \<Rightarrow> string + string option" where
  "findMode_symbol layer =
     (case isSymbolInstance layer of
        Inl e \<Rightarrow> Inl e
      | Inr False \<Rightarrow> Inr None
      | Inr True \<Rightarrow>
         (case fault_of layer Call_symbolMaster of
            Some e \<Rightarrow> Inl e
          | None \<Rightarrow>
             (case symbolMaster layer of
                None \<Rightarrow> Inr None
              | Some master \<Rightarrow> Inr (detectCurrentMode (symbol_name master)))))"

text \<open>
  \<open>findModeInLayer\<close>, and the loop that returns the first mode found in a sequence
  of layers (the children in \<open>findModeInLayer\<close>, the selection in \<open>toggleMode\<close>).
\<close>

fun findModeInLayer :: "document \<Rightarrow> layer \<Rightarrow> string option"
  and findModeInLayers :: "document \<Rightarrow> layer list \<Rightarrow> string option"
where
  "findModeInLayer d (Layer n c ss st sm ov cs fl) =
     (case fault_of (Layer n c ss st sm ov cs fl) Call_class of
        Some e \<Rightarrow> None
      | None \<Rightarrow>
         (case findMode_textStyle (Layer n c ss st sm ov cs fl) of
            Inl e \<Rightarrow> None
          | Inr (Some mode) \<Rightarrow> Some mode
          | Inr None \<Rightarrow>
             (case findMode_layerStyle d (Layer n c ss st sm ov cs fl) of
                Inl e \<Rightarrow> None
              | Inr (Some mode) \<Rightarrow> Some mode
              | Inr None \<Rightarrow>
                 (case findMode_symbol (Layer n c ss st sm ov cs fl) of
                    Inl e \<Rightarrow> None
                  | Inr (Some mode) \<Rightarrow> Some mode
                  | Inr None \<Rightarrow>
                     (case fault_of (Layer n c ss st sm ov cs fl) Call_layers of
                        Some e \<Rightarrow> None
                      | None \<Rightarrow> findModeInLayers d cs)))))"
| "findModeInLayers d [] = None"
| "findModeInLayers d (layer # rest) =
     (case findModeInLayer d layer of
        Some mode \<Rightarrow> Some mode
      | None \<Rightarrow> findModeInLayers d rest)"

text \<open>The target of \<open>toggleMode\<close>, as its conditional expression computes it.\<close>

definition toggleTargetMode :: "string option \<Rightarrow> string" where
  "toggleTargetMode detectedMode =
     (if detectedMode = Some MODES_LIGHT then MODES_DARK else MODES_DARK)"

definition toggleMode :: "plugin_context \<Rightarrow> plugin_context" where
  "toggleMode ctx =
     (if selection ctx = []
      then showMessage ctx ''Please select layers to toggle''
      else switchMode ctx (toggleTargetMode (findModeInLayers (doc ctx) (selection ctx))))"

definition switchToDark :: "plugin_context \<Rightarrow> plugin_context" where
  "switchToDark ctx = switchMode ctx MODES_DARK"

definition switchToLight :: "plugin_context \<Rightarrow> plugin_context" where
  "switchToLight ctx = switchMode ctx MODES_LIGHT"

section \<open>Documents used as examples\<close>

definition buttonLight :: symbol_master where
  "buttonLight = \<lparr>symbol_id = ''S1'', symbol_name = ''button/light/primary''\<rparr>"

definition buttonDark :: symbol_master where
  "buttonDark = \<lparr>symbol_id = ''S2'', symbol_name = ''button/dark/primary''\<rparr>"

definition textLight :: shared_style where
  "textLight = \<lparr>style_id = ''T1'', style_name = ''text/light/body'', style_props = ''black''\<rparr>"

definition textDark :: shared_style where
  "textDark = \<lparr>style_id = ''T2'', style_name = ''text/dark/body'', style_props = ''white''\<rparr>"

definition surfaceLight :: shared_style where
  "surfaceLight = \<lparr>style_id = ''L1'', style_name = ''card/light/surface'', style_props = ''grey''\<rparr>"

definition surfaceDark :: shared_style where
  "surfaceDark = \<lparr>style_id = ''L2'', style_name = ''card/dark/surface'', style_props = ''coal''\<rparr>"

definition exampleDocument :: document where
  "exampleDocument =
     \<lparr>sharedTextStyles = [textLight, textDark], sharedLayerStyles = [surfaceLight, surfaceDark],
      allSymbols = [buttonLight, buttonDark]\<rparr>"

text \<open>A symbol instance of the master \<open>button/light/primary\<close>, with no shared style.\<close>

definition lightButton :: layer where
  "lightButton = Layer ''Button'' ''MSSymbolInstance'' None [] (Some buttonLight) None [] []"

text \<open>The same instance once it points to \<open>button/dark/primary\<close>.\<close>

definition darkButton :: layer where
  "darkButton = Layer ''Button'' ''MSSymbolInstance'' None [] (Some buttonDark) None [] []"

text \<open>A text layer with the shared text style \<open>text/dark/body\<close>.\<close>

definition darkText :: layer where
  "darkText = Layer ''Body'' ''MSTextLayer'' (Some textDark) ''white'' None None [] []"

text \<open>A text layer with the shared text style \<open>text/light/body\<close>, and what it becomes.\<close>

definition lightText :: layer where
  "lightText = Layer ''Body'' ''MSTextLayer'' (Some textLight) ''black'' None None [] []"

definition switchedText :: layer where
  "switchedText = Layer ''Body'' ''MSTextLayer'' (Some textDark) ''white'' None None [] []"

text \<open>
  A symbol instance of \<open>button/light/primary\<close> that also carries the shared layer style
  \<open>card/light/surface\<close>; the same after its style, and then its symbol, went dark.
\<close>

definition styledButton :: layer where
  "styledButton =
     Layer ''Button'' ''MSSymbolInstance'' (Some surfaceLight) ''grey'' (Some buttonLight) None [] []"

definition styledButton1 :: layer where
  "styledButton1 =
     Layer ''Button'' ''MSSymbolInstance'' (Some surfaceDark) ''coal'' (Some buttonLight) None [] []"

definition styledButton2 :: layer where
  "styledButton2 =
     Layer ''Button'' ''MSSymbolInstance'' (Some surfaceDark) ''coal'' (Some buttonDark) None [] []"

text \<open>A group with no shared style and no children.\<close>

definition plainGroup :: layer where
  "plainGroup = Layer ''Group'' ''MSLayerGroup'' None [] None None [] []"

text \<open>Two layers on which one call faults: \<open>name()\<close> on the first, \<open>class()\<close> on the second.\<close>

definition namelessLayer :: layer where
  "namelessLayer = Layer ''Broken'' ''MSLayerGroup'' None [] None None [] [(Call_name, ''boom'')]"

definition classlessLayer :: layer where
  "classlessLayer = Layer ''Broken'' ''MSLayerGroup'' None [] None None [] [(Call_class, ''boom'')]"

section \<open>Notions used in the statements\<close>

text \<open>
  Two layers that agree on everything but the shared style and the direct style
  properties.
\<close>

definition same_but_style :: "layer \<Rightarrow> layer \<Rightarrow> bool" where
  "same_but_style l l' \<longleftrightarrow>
     layer_class l' = layer_class l \<and> symbolMaster l' = symbolMaster l \<and>
     layers l' = layers l \<and> faults l' = faults l \<and> layer_name l' = layer_name l \<and>
     overrides l' = overrides l"

text \<open>
  A subtree without symbol instances: on none of its layers does the test
  \<open>isSymbolInstance\<close> of the source succeed.
\<close>

fun noSymbolInstance :: "layer \<Rightarrow> bool" where
  "noSymbolInstance (Layer n c ss st sm ov cs fl) \<longleftrightarrow>
     isSymbolInstance (Layer n c ss st sm ov cs fl) \<noteq> Inr True \<and> list_all noSymbolInstance cs"

text \<open>
  What a second pass does to a layer \<open>l'\<close> that a first pass returned with the
  outcome \<open>res\<close>: it changes nothing, fails as the first pass failed, or else switches
  nothing and counts as skipped everything the first pass counted.
\<close>

definition passes_again :: "document \<Rightarrow> string \<Rightarrow> layer \<Rightarrow> string + result \<Rightarrow> bool" where
  "passes_again d t l' res \<longleftrightarrow>
     noSymbolInstance l' \<and>
     (case res of
        Inl e \<Rightarrow> processLayer d t l' = (l', Inl e)
      | Inr r \<Rightarrow> processLayer d t l' = (l', Inr \<lparr>switched = 0, skipped = switched r + skipped r\<rparr>))"

section \<open>Splitting and joining\<close>

lemma split_not_Nil: "split sep s \<noteq> []"
  by (induction s) (auto split: list.splits)

lemma length_split: "length (split sep s) = Suc (count_list s sep)"
  by (induction s) (auto simp: split_not_Nil split: list.splits)

lemma split_two_iff: "2 \<le> length (split sep s) \<longleftrightarrow> sep \<in> set s"
  using count_list_0_iff[of s sep] by (auto simp: length_split)

lemma join_Cons: "ps \<noteq> [] \<Longrightarrow> join sep (p # ps) = p @ sep # join sep ps"
  by (cases ps) simp_all

lemma join_split: "join sep (split sep s) = s"
proof (induction s)
  case Nil
  show ?case by simp
next
  case (Cons c cs)
  show ?case
  proof (cases "split sep cs")
    case Nil
    then show ?thesis using split_not_Nil by blast
  next
    case (Cons p ps)
    with Cons.IH show ?thesis by (cases ps) auto
  qed
qed

lemma split_no_sep: "sep \<notin> set a \<Longrightarrow> split sep a = [a]"
  by (induction a) auto

lemma split_append_sep: "sep \<notin> set a \<Longrightarrow> split sep (a @ sep # r) = a # split sep r"
  by (induction a) auto

lemma split_segments_no_sep: "p \<in> set (split sep s) \<Longrightarrow> sep \<notin> set p"
proof (induction s arbitrary: p)
  case Nil
  then show ?case by simp
next
  case (Cons c cs)
  then show ?case
    by (cases "split sep cs") (auto simp: split_not_Nil split: if_splits)
qed

lemma split_join:
  "ps \<noteq> [] \<Longrightarrow> \<forall>p \<in> set ps. sep \<notin> set p \<Longrightarrow> split sep (join sep ps) = ps"
proof (induction ps rule: join.induct[where ?a0.0 = sep, case_names Nil One More])
  case Nil
  then show ?case by simp
next
  case (One p)
  then show ?case by (simp add: split_no_sep)
next
  case (More p q ps)
  then show ?case by (simp add: split_append_sep)
qed

lemma append_sep_inject:
  "sep \<notin> set a \<Longrightarrow> sep \<notin> set a' \<Longrightarrow> a @ sep # r = a' @ sep # r' \<Longrightarrow> a = a' \<and> r = r'"
proof (induction a arbitrary: a')
  case Nil
  then show ?case by (cases a') auto
next
  case (Cons x a)
  then show ?case by (cases a') auto
qed

section \<open>Trimming\<close>

lemma trim_ws_Cons: "isWhiteSpace c \<Longrightarrow> trim (c # s) = trim s"
  by (simp add: trim_def)

lemma trim_ws_snoc: "isWhiteSpace c \<Longrightarrow> trim (s @ [c]) = trim s"
proof (cases "\<forall>x \<in> set s. isWhiteSpace x")
  case True
  assume c: "isWhiteSpace c"
  from True have a: "dropWhile isWhiteSpace s = []"
    by (simp add: dropWhile_eq_Nil_conv)
  from True c have b: "dropWhile isWhiteSpace (s @ [c]) = []"
    by (simp add: dropWhile_eq_Nil_conv)
  show ?thesis by (simp only: trim_def a b)
next
  case False
  assume c: "isWhiteSpace c"
  from False have "dropWhile isWhiteSpace (s @ [c]) = dropWhile isWhiteSpace s @ [c]"
    by (auto simp: dropWhile_append1)
  with c show ?thesis by (simp add: trim_def)
qed

lemma isWhiteSpace_space: "isWhiteSpace CHR '' ''"
  by (simp add: isWhiteSpace_def whiteSpaceChars_def)

lemma toLowerCase_space: "toLowerCase_char CHR '' '' = CHR '' ''"
  by (simp add: toLowerCase_char_def upperChars_def lowerChars_def)

lemma trim_spaces_around: "trim (toLowerCase ('' '' @ mode @ '' '')) = trim (toLowerCase mode)"
proof -
  have "toLowerCase ('' '' @ mode @ '' '') = CHR '' '' # (toLowerCase mode @ [CHR '' ''])"
    by (simp add: toLowerCase_def toLowerCase_space)
  then show ?thesis
    by (simp only: trim_ws_Cons[OF isWhiteSpace_space] trim_ws_snoc[OF isWhiteSpace_space])
qed

section \<open>Decoding and encoding names\<close>

lemmas codec_eval =
  detectCurrentMode_def buildTargetName_def NAMING_SEPARATOR_def trim_def toLowerCase_def
  toLowerCase_char_def upperChars_def lowerChars_def isWhiteSpace_def whiteSpaceChars_def
  MODES_LIGHT_def MODES_DARK_def

lemma split_legacyName:
  "NAMING_SEPARATOR \<notin> set component \<Longrightarrow> NAMING_SEPARATOR \<notin> set mode \<Longrightarrow>
   split NAMING_SEPARATOR (legacyName component mode variant) =
     (component @ '' '') # ('' '' @ mode @ '' '') # split NAMING_SEPARATOR ('' '' @ variant)"
proof -
  assume c: "NAMING_SEPARATOR \<notin> set component" and m: "NAMING_SEPARATOR \<notin> set mode"
  have eq: "legacyName component mode variant =
      (component @ '' '') @ NAMING_SEPARATOR # (('' '' @ mode @ '' '') @ NAMING_SEPARATOR # ('' '' @ variant))"
    by (simp add: legacyName_def NAMING_SEPARATOR_def)
  from c have c': "NAMING_SEPARATOR \<notin> set (component @ '' '')"
    by (simp add: NAMING_SEPARATOR_def)
  from m have m': "NAMING_SEPARATOR \<notin> set ('' '' @ mode @ '' '')"
    by (simp add: NAMING_SEPARATOR_def)
  show ?thesis
    unfolding eq split_append_sep[OF c'] split_append_sep[OF m'] ..
qed

lemma split_buildTargetName:
  assumes two: "2 \<le> length (split NAMING_SEPARATOR name)" and t: "NAMING_SEPARATOR \<notin> set t"
  shows "split NAMING_SEPARATOR (buildTargetName name t) = (split NAMING_SEPARATOR name)[1 := t]"
proof -
  have enc: "buildTargetName name t = join NAMING_SEPARATOR ((split NAMING_SEPARATOR name)[1 := t])"
    using two by (simp add: buildTargetName_def)
  have "\<forall>p \<in> set ((split NAMING_SEPARATOR name)[1 := t]). NAMING_SEPARATOR \<notin> set p"
  proof
    fix p
    assume "p \<in> set ((split NAMING_SEPARATOR name)[1 := t])"
    then have "p = t \<or> p \<in> set (split NAMING_SEPARATOR name)"
      using set_update_subset_insert[of "split NAMING_SEPARATOR name" 1 t] by auto
    with t show "NAMING_SEPARATOR \<notin> set p"
      using split_segments_no_sep by blast
  qed
  moreover have "(split NAMING_SEPARATOR name)[1 := t] \<noteq> []"
    by (simp add: split_not_Nil)
  ultimately show ?thesis
    unfolding enc by (rule split_join[rotated])
qed

text \<open>
  Claim C8. \<open>detectCurrentMode\<close> (the spec's \<open>decode\<close>) yields a mode exactly when the
  name splits into at least two segments on the separator and the second segment,
  lower-cased and trimmed, is \<open>light\<close> or \<open>dark\<close>; that segment is then the mode. In
  every other case the mode is absent, and no name makes the function fail. So
  \<open>card / LIGHT / default\<close> decodes to \<open>light\<close> and \<open>card-light-default\<close> to no mode.
\<close>

theorem detectCurrentMode_decode:
  "(detectCurrentMode name = Some m \<longleftrightarrow>
      2 \<le> length (split NAMING_SEPARATOR name) \<and>
      trim (toLowerCase (split NAMING_SEPARATOR name ! 1)) = m \<and>
      (m = ''light'' \<or> m = ''dark'')) \<and>
   (detectCurrentMode name = None \<longleftrightarrow>
      \<not> (2 \<le> length (split NAMING_SEPARATOR name) \<and>
         (trim (toLowerCase (split NAMING_SEPARATOR name ! 1)) = ''light'' \<or>
          trim (toLowerCase (split NAMING_SEPARATOR name ! 1)) = ''dark''))) \<and>
   detectCurrentMode ''card / LIGHT / default'' = Some ''light'' \<and>
   detectCurrentMode ''card-light-default'' = None"
proof (intro conjI)
  show "detectCurrentMode name = Some m \<longleftrightarrow>
      2 \<le> length (split NAMING_SEPARATOR name) \<and>
      trim (toLowerCase (split NAMING_SEPARATOR name ! 1)) = m \<and>
      (m = ''light'' \<or> m = ''dark'')"
    by (auto simp: detectCurrentMode_def MODES_LIGHT_def MODES_DARK_def Let_def)
  show "detectCurrentMode name = None \<longleftrightarrow>
      \<not> (2 \<le> length (split NAMING_SEPARATOR name) \<and>
         (trim (toLowerCase (split NAMING_SEPARATOR name ! 1)) = ''light'' \<or>
          trim (toLowerCase (split NAMING_SEPARATOR name ! 1)) = ''dark''))"
    by (auto simp: detectCurrentMode_def MODES_LIGHT_def MODES_DARK_def Let_def)
  show "detectCurrentMode ''card / LIGHT / default'' = Some ''light''"
    by (simp add: codec_eval)
  show "detectCurrentMode ''card-light-default'' = None"
    by (simp add: codec_eval)
qed

theorem detectCurrentMode_decode_witness:
  "2 \<le> length (split NAMING_SEPARATOR ''text/Dark /body'') \<and>
   detectCurrentMode ''text/Dark /body'' = Some ''dark'' \<and>
   detectCurrentMode ''text/darker/body'' = None"
  using detectCurrentMode_decode[of "''text/Dark /body''" "''dark''"]
    detectCurrentMode_decode[of "''text/darker/body''" "''dark''"]
  by (simp add: NAMING_SEPARATOR_def trim_def toLowerCase_def toLowerCase_char_def
      upperChars_def lowerChars_def isWhiteSpace_def whiteSpaceChars_def)

text \<open>
  Claim C9. \<open>buildTargetName\<close> (the spec's \<open>encode\<close>) splits the name on the
  separator. With two segments or more it puts the target mode, as given, in place of
  the second segment and joins the segments with the separator again: the result
  splits into the same segments with the second one replaced (for a target mode free
  of the separator). With fewer than two segments it returns the name unchanged. So
  \<open>button/light/primary\<close> becomes \<open>button/dark/primary\<close> and \<open>no-slash-name\<close> stays.
\<close>

theorem buildTargetName_encode:
  "(2 \<le> length (split NAMING_SEPARATOR name) \<longrightarrow>
      buildTargetName name t =
        join NAMING_SEPARATOR ((split NAMING_SEPARATOR name)[1 := t]) \<and>
      (NAMING_SEPARATOR \<notin> set t \<longrightarrow>
         split NAMING_SEPARATOR (buildTargetName name t) = (split NAMING_SEPARATOR name)[1 := t])) \<and>
   (length (split NAMING_SEPARATOR name) < 2 \<longrightarrow> buildTargetName name t = name) \<and>
   buildTargetName ''button/light/primary'' ''dark'' = ''button/dark/primary'' \<and>
   buildTargetName ''no-slash-name'' ''dark'' = ''no-slash-name''"
proof (intro conjI impI)
  assume two: "2 \<le> length (split NAMING_SEPARATOR name)"
  then show enc: "buildTargetName name t =
      join NAMING_SEPARATOR ((split NAMING_SEPARATOR name)[1 := t])"
    by (simp add: buildTargetName_def)
  assume t: "NAMING_SEPARATOR \<notin> set t"
  from two t show "split NAMING_SEPARATOR (buildTargetName name t) =
      (split NAMING_SEPARATOR name)[1 := t]"
    by (rule split_buildTargetName)
next
  assume "length (split NAMING_SEPARATOR name) < 2"
  then show "buildTargetName name t = name"
    by (simp add: buildTargetName_def)
next
  show "buildTargetName ''button/light/primary'' ''dark'' = ''button/dark/primary''"
    by (simp add: codec_eval)
  show "buildTargetName ''no-slash-name'' ''dark'' = ''no-slash-name''"
    by (simp add: codec_eval)
qed

theorem buildTargetName_encode_witness:
  "2 \<le> length (split NAMING_SEPARATOR ''a/light/b'') \<and>
   NAMING_SEPARATOR \<notin> set ''dark'' \<and>
   split NAMING_SEPARATOR (buildTargetName ''a/light/b'' ''dark'') = [''a'', ''dark'', ''b''] \<and>
   length (split NAMING_SEPARATOR ''ab'') < 2 \<and>
   buildTargetName ''ab'' ''dark'' = ''ab''"
  using buildTargetName_encode[of "''a/light/b''" "''dark''"]
    buildTargetName_encode[of "''ab''" "''dark''"]
  by (simp add: NAMING_SEPARATOR_def)

text \<open>
  Claim C10. Take a name in the historical form \<open>component / mode / variant\<close>, whose
  component and mode hold no slash. Decoding it on \<open>/\<close> finds the mode that the same
  name without the spaces has, since the second segment is trimmed. Encoding it with a
  target mode \<open>t\<close> replaces the whole second segment and so loses the spaces around it:
  the result is \<open>component /t/ variant\<close>. That string differs from the sibling
  \<open>component / t / variant\<close>, and, for the target modes \<open>light\<close> and \<open>dark\<close>, from
  every name of the historical form whose component holds no slash: no catalog entry
  named that way is ever found under the synthesized name.
\<close>

theorem legacy_name_target_mismatch:
  assumes "NAMING_SEPARATOR \<notin> set component" and "NAMING_SEPARATOR \<notin> set mode"
  shows "detectCurrentMode (legacyName component mode variant) =
           detectCurrentMode (component @ ''/'' @ mode @ ''/'' @ variant) \<and>
         buildTargetName (legacyName component mode variant) t =
           component @ '' /'' @ t @ ''/ '' @ variant \<and>
         buildTargetName (legacyName component mode variant) t \<noteq> legacyName component t variant \<and>
         ((t = MODES_LIGHT \<or> t = MODES_DARK) \<and> NAMING_SEPARATOR \<notin> set component' \<longrightarrow>
            buildTargetName (legacyName component mode variant) t \<noteq>
              legacyName component' mode' variant')"
proof -
  define r where "r = split NAMING_SEPARATOR ('' '' @ variant)"
  have rne: "r \<noteq> []" and jr: "join NAMING_SEPARATOR r = '' '' @ variant"
    by (simp_all only: r_def split_not_Nil join_split not_False_eq_True)
  have sp: "split NAMING_SEPARATOR (legacyName component mode variant) =
      (component @ '' '') # ('' '' @ mode @ '' '') # r"
    unfolding r_def using assms by (rule split_legacyName)
  have plain: "component @ ''/'' @ mode @ ''/'' @ variant =
      component @ NAMING_SEPARATOR # (mode @ NAMING_SEPARATOR # variant)"
    by (simp add: NAMING_SEPARATOR_def)
  have sp2: "split NAMING_SEPARATOR (component @ ''/'' @ mode @ ''/'' @ variant) =
      component # mode # split NAMING_SEPARATOR variant"
    unfolding plain split_append_sep[OF assms(1)] split_append_sep[OF assms(2)] ..
  have d: "detectCurrentMode (legacyName component mode variant) =
           detectCurrentMode (component @ ''/'' @ mode @ ''/'' @ variant)"
    unfolding detectCurrentMode_def sp sp2 using trim_spaces_around[of mode]
    by (simp add: Let_def)
  have b: "buildTargetName (legacyName component mode variant) t =
      component @ '' /'' @ t @ ''/ '' @ variant"
    unfolding buildTargetName_def sp using rne jr
    by (simp add: join_Cons NAMING_SEPARATOR_def)
  have "length (component @ '' /'' @ t @ ''/ '' @ variant) \<noteq> length (legacyName component t variant)"
    by (simp add: legacyName_def)
  then have n: "component @ '' /'' @ t @ ''/ '' @ variant \<noteq> legacyName component t variant"
    by metis
  have g: "component @ '' /'' @ t @ ''/ '' @ variant \<noteq> legacyName component' mode' variant'"
    if t: "t = MODES_LIGHT \<or> t = MODES_DARK" and c': "NAMING_SEPARATOR \<notin> set component'"
  proof
    assume eq: "component @ '' /'' @ t @ ''/ '' @ variant = legacyName component' mode' variant'"
    have l: "component @ '' /'' @ t @ ''/ '' @ variant =
        (component @ '' '') @ NAMING_SEPARATOR # (t @ ''/ '' @ variant)"
      by (simp add: NAMING_SEPARATOR_def)
    have r: "legacyName component' mode' variant' =
        (component' @ '' '') @ NAMING_SEPARATOR # ('' '' @ mode' @ '' / '' @ variant')"
      by (simp add: legacyName_def NAMING_SEPARATOR_def)
    have "NAMING_SEPARATOR \<notin> set (component @ '' '')"
      and "NAMING_SEPARATOR \<notin> set (component' @ '' '')"
      using assms(1) c' by (simp_all add: NAMING_SEPARATOR_def)
    then have "t @ ''/ '' @ variant = '' '' @ mode' @ '' / '' @ variant'"
      using append_sep_inject eq l r by metis
    with t show False
      by (auto simp: MODES_LIGHT_def MODES_DARK_def)
  qed
  show ?thesis using d b n g by simp
qed

theorem legacy_name_target_mismatch_witness:
  "NAMING_SEPARATOR \<notin> set ''button'' \<and> NAMING_SEPARATOR \<notin> set ''light'' \<and>
   detectCurrentMode ''button / light / primary'' = Some ''light'' \<and>
   buildTargetName ''button / light / primary'' ''dark'' = ''button /dark/ primary'' \<and>
   ''button /dark/ primary'' \<noteq> ''button / dark / primary'' \<and>
   buildTargetName ''button / light / primary'' ''dark'' \<noteq> legacyName ''icon'' ''dark'' ''arrow''"
proof -
  have c: "NAMING_SEPARATOR \<notin> set ''button''" and m: "NAMING_SEPARATOR \<notin> set ''light''"
    and c': "NAMING_SEPARATOR \<notin> set ''icon''"
    by (simp_all add: NAMING_SEPARATOR_def)
  have d: "detectCurrentMode ''button/light/primary'' = Some ''light''"
    by (simp add: codec_eval)
  show ?thesis
    using legacy_name_target_mismatch[OF c m, of "''primary''" "''dark''" "''icon''" "''dark''" "''arrow''"]
      c m c' d
    by (simp add: legacyName_def MODES_DARK_def)
qed

section \<open>The engine on the example documents\<close>

lemmas engine_eval =
  switchMode_def toggleMode_def toggleTargetMode_def showMessage_def modeText_def
  switchToDark_def switchToLight_def
  processCurrentLayer_def switchLayerStyle_def switchSharedStyle_def switchSymbolMode_def
  isSymbolInstance_def catch_log_name_def fault_of_def add_result_def findSymbolByName_def
  findMode_textStyle_def findMode_layerStyle_def findMode_symbol_def
  toUpperCase_char_def nat_to_string.simps

lemmas example_defs =
  exampleDocument_def lightButton_def darkButton_def darkText_def plainGroup_def
  lightText_def switchedText_def styledButton_def styledButton1_def styledButton2_def
  namelessLayer_def classlessLayer_def buttonLight_def buttonDark_def textLight_def textDark_def
  surfaceLight_def surfaceDark_def

text \<open>
  Claim C1, on the code. The selection is one symbol instance of the master
  \<open>button/light/primary\<close>, and the catalog holds \<open>button/dark/primary\<close>. Switching
  the selection to dark repoints the instance to the dark master, but the message shown
  is \<open>Switched to Dark Mode: 1 changed, 1 skipped\<close>, not \<open>1 changed, 0 skipped\<close>: the
  style path has already counted the instance, which has no shared style, as skipped.
\<close>

theorem switchMode_scenario_A:
  "switchMode \<lparr>selection = [lightButton], doc = exampleDocument, shown = []\<rparr> MODES_DARK =
     \<lparr>selection = [darkButton], doc = exampleDocument,
      shown = [''Switched to Dark Mode: 1 changed, 1 skipped'']\<rparr>"
  by (simp add: engine_eval example_defs codec_eval)

text \<open>
  Claim C2, as stated, fails: a group with no shared style that is no symbol instance
  gets the result \<open>{switched: 0, skipped: 1}\<close> from the per-node operation, not
  \<open>{0, 0}\<close>.
\<close>

theorem plainGroup_counted_as_skipped:
  "sharedStyle plainGroup = None \<and> isSymbolInstance plainGroup = Inr False \<and>
   processCurrentLayer exampleDocument plainGroup MODES_DARK =
     (plainGroup, Inr \<lparr>switched = 0, skipped = 1\<rparr>) \<and>
   processCurrentLayer exampleDocument plainGroup MODES_DARK \<noteq>
     (plainGroup, Inr \<lparr>switched = 0, skipped = 0\<rparr>)"
  by (simp add: engine_eval example_defs codec_eval)

lemma switchLayerStyle_no_style:
  "sharedStyle layer = None \<Longrightarrow>
   switchLayerStyle d layer targetMode = (layer, \<lparr>switched = 0, skipped = 1\<rparr>)"
  by (simp add: switchLayerStyle_def switchSharedStyle_def split: option.splits)

text \<open>
  Claim C2, amended. For every layer with no shared style that is no symbol instance
  (and whose \<open>name()\<close> and \<open>class()\<close> calls do not fault), the per-node operation
  leaves the layer as it is and returns \<open>{switched: 0, skipped: 1}\<close>: the style path
  counts a layer without a shared style as skipped, once. In the subtree tally the
  results of the descendants are added to this \<open>{0, 1}\<close>.
\<close>

theorem styleless_layer_counted_skipped:
  assumes "first_fault layer [Call_name, Call_class] = None"
    and "sharedStyle layer = None"
    and "isSymbolInstance layer = Inr False"
  shows "processCurrentLayer d layer targetMode = (layer, Inr \<lparr>switched = 0, skipped = 1\<rparr>) \<and>
         (fault_of layer Call_layers = None \<longrightarrow>
            processLayer d targetMode layer =
              (set_layers layer
                 (fst (processLayers d targetMode (layers layer) \<lparr>switched = 0, skipped = 1\<rparr>)),
               Inr (fst (snd (processLayers d targetMode (layers layer)
                                 \<lparr>switched = 0, skipped = 1\<rparr>)))))"
proof -
  have cur: "processCurrentLayer d layer targetMode = (layer, Inr \<lparr>switched = 0, skipped = 1\<rparr>)"
    using assms by (simp add: processCurrentLayer_def switchLayerStyle_no_style add_result_def)
  have nm: "fault_of layer Call_name = None"
    using assms(1) by (simp split: option.splits)
  have "processLayer d targetMode layer =
      (set_layers layer
         (fst (processLayers d targetMode (layers layer) \<lparr>switched = 0, skipped = 1\<rparr>)),
       Inr (fst (snd (processLayers d targetMode (layers layer) \<lparr>switched = 0, skipped = 1\<rparr>))))"
    if ly: "fault_of layer Call_layers = None"
  proof (cases layer)
    case (Layer n c ss st sm ov cs fl)
    show ?thesis
      using cur nm ly unfolding Layer
      by (simp add: add_result_def catch_log_name_def split: prod.splits option.splits)
  qed
  with cur show ?thesis by simp
qed

theorem styleless_layer_counted_skipped_witness:
  "first_fault plainGroup [Call_name, Call_class] = None \<and> sharedStyle plainGroup = None \<and>
   isSymbolInstance plainGroup = Inr False \<and> fault_of plainGroup Call_layers = None \<and>
   processCurrentLayer exampleDocument plainGroup MODES_DARK =
     (plainGroup, Inr \<lparr>switched = 0, skipped = 1\<rparr>) \<and>
   processLayer exampleDocument MODES_DARK plainGroup =
     (plainGroup, Inr \<lparr>switched = 0, skipped = 1\<rparr>)"
proof -
  have a: "first_fault plainGroup [Call_name, Call_class] = None"
    and b: "sharedStyle plainGroup = None"
    and c: "isSymbolInstance plainGroup = Inr False"
    and e: "fault_of plainGroup Call_layers = None"
    by (simp_all add: plainGroup_def fault_of_def isSymbolInstance_def)
  have f: "layers plainGroup = []" and g: "set_layers plainGroup [] = plainGroup"
    by (simp_all add: plainGroup_def)
  show ?thesis
    using styleless_layer_counted_skipped[OF a b c, of exampleDocument MODES_DARK] a b c e
    by (simp add: f g)
qed

text \<open>
  Claim C3, on the code. The selection is one text layer whose shared style is
  \<open>text/dark/body\<close>. The whole-subtree search detects \<open>dark\<close>, yet the target that
  \<open>toggleMode\<close> computes is \<open>dark\<close> again, not \<open>light\<close>: the layer is skipped as
  already dark and keeps its style, although \<open>text/light/body\<close> is in the catalog.
\<close>

theorem toggleMode_dark_selection:
  "findModeInLayers exampleDocument [darkText] = Some MODES_DARK \<and>
   toggleTargetMode (Some MODES_DARK) = MODES_DARK \<and>
   toggleMode \<lparr>selection = [darkText], doc = exampleDocument, shown = []\<rparr> =
     \<lparr>selection = [darkText], doc = exampleDocument,
      shown = [''Switched to Dark Mode: 0 changed, 1 skipped'']\<rparr>"
  by (simp add: engine_eval example_defs codec_eval)

text \<open>
  Claim C4, as stated, fails for the toggle entry point: on an empty selection it
  shows \<open>Please select layers to toggle\<close>, not \<open>Please select layers to switch modes\<close>.
\<close>

theorem toggleMode_empty_message:
  "shown (toggleMode \<lparr>selection = [], doc = exampleDocument, shown = []\<rparr>) =
     [''Please select layers to toggle''] \<and>
   shown (toggleMode \<lparr>selection = [], doc = exampleDocument, shown = []\<rparr>) \<noteq>
     [''Please select layers to switch modes'']"
  by (simp add: engine_eval)

text \<open>
  Claim C4, amended. On an empty selection every entry point that takes a selection
  returns at once: nothing of the context changes but the list of messages, which
  gains exactly one. For \<open>switchToLight\<close> and \<open>switchToDark\<close> the message is
  \<open>Please select layers to switch modes\<close>; for \<open>toggleMode\<close> it is
  \<open>Please select layers to toggle\<close>.
\<close>

theorem empty_selection_short_circuit:
  "selection ctx = [] \<Longrightarrow>
   switchToLight ctx = ctx\<lparr>shown := shown ctx @ [''Please select layers to switch modes'']\<rparr> \<and>
   switchToDark ctx = ctx\<lparr>shown := shown ctx @ [''Please select layers to switch modes'']\<rparr> \<and>
   toggleMode ctx = ctx\<lparr>shown := shown ctx @ [''Please select layers to toggle'']\<rparr>"
  by (simp add: switchMode_def toggleMode_def showMessage_def switchToLight_def switchToDark_def)

theorem empty_selection_short_circuit_witness:
  "selection \<lparr>selection = [], doc = exampleDocument, shown = []\<rparr> = [] \<and>
   switchToDark \<lparr>selection = [], doc = exampleDocument, shown = []\<rparr> =
     \<lparr>selection = [], doc = exampleDocument, shown = [''Please select layers to switch modes'']\<rparr> \<and>
   toggleMode \<lparr>selection = [], doc = exampleDocument, shown = []\<rparr> =
     \<lparr>selection = [], doc = exampleDocument, shown = [''Please select layers to toggle'']\<rparr>"
  using empty_selection_short_circuit[of "\<lparr>selection = [], doc = exampleDocument, shown = []\<rparr>"]
  by simp

text \<open>
  Claim C5, on the code. When \<open>name()\<close> faults on a layer, the \<open>catch\<close> blocks that
  log the layer's name throw again, and the error leaves \<open>processLayer\<close>. At the top of
  a selection it ends the walk: the layers after it are not processed and the message is
  \<open>Error: boom\<close>. Inside a group it ends the loop over the children: the symbol
  instance after the faulting layer stays light, and the group returns what it had
  counted so far. When \<open>class()\<close> faults instead, the error is caught, but the layer's
  result is \<open>{0, 0}\<close>: no skip is recorded.
\<close>

theorem fault_escapes_and_aborts_walk:
  "processLayer exampleDocument MODES_DARK namelessLayer = (namelessLayer, Inl ''boom'') \<and>
   switchMode \<lparr>selection = [namelessLayer, lightButton], doc = exampleDocument, shown = []\<rparr>
       MODES_DARK =
     \<lparr>selection = [namelessLayer, lightButton], doc = exampleDocument,
      shown = [''Error: boom'']\<rparr> \<and>
   processLayer exampleDocument MODES_DARK
       (Layer ''Card'' ''MSLayerGroup'' None [] None None [namelessLayer, lightButton] []) =
     (Layer ''Card'' ''MSLayerGroup'' None [] None None [namelessLayer, lightButton] [],
      Inr \<lparr>switched = 0, skipped = 1\<rparr>) \<and>
   processLayer exampleDocument MODES_DARK classlessLayer =
     (classlessLayer, Inr \<lparr>switched = 0, skipped = 0\<rparr>)"
  by (simp add: engine_eval example_defs codec_eval)

text \<open>
  Claim C6, on the code. A symbol instance with no shared style whose master is already
  \<open>button/dark/primary\<close> gets the result \<open>{switched: 0, skipped: 2}\<close> from one
  application of the per-node operation with target dark: the style path and the symbol
  path each count it as skipped.
\<close>

theorem darkButton_skipped_twice:
  "processCurrentLayer exampleDocument darkButton MODES_DARK =
     (darkButton, Inr \<lparr>switched = 0, skipped = 2\<rparr>)"
  by (simp add: engine_eval example_defs codec_eval)

text \<open>
  The part of claim C6 that holds for every layer: one application of the per-node
  operation switches at most once. The shared-style path always counts one (a switch or
  a skip), the symbol path at most one, so the skips of one layer can reach two.
\<close>

lemma switchSharedStyle_tally:
  "switchSharedStyle catalog l t = (l', r) \<Longrightarrow> switched r + skipped r = 1"
  by (auto simp: switchSharedStyle_def Let_def split: option.splits if_splits)

lemma switchLayerStyle_tally:
  "switchLayerStyle d l t = (l', r) \<Longrightarrow> switched r + skipped r = 1"
  by (auto simp: switchLayerStyle_def dest: switchSharedStyle_tally split: option.splits if_splits)

lemma switchSymbolMode_tally:
  "switchSymbolMode d l t = (l', r) \<Longrightarrow> switched r + skipped r \<le> 1"
  by (auto simp: switchSymbolMode_def Let_def split: option.splits if_splits)

lemma processCurrentLayer_tally:
  assumes "processCurrentLayer d l t = (l', Inr r)"
  shows "switched r \<le> 1 \<and> skipped r \<le> 2 \<and> switched r + skipped r \<le> 2"
proof (cases "first_fault l [Call_name, Call_class]")
  case (Some e)
  with assms show ?thesis
    by (auto simp: processCurrentLayer_def catch_log_name_def split: option.splits)
next
  case None
  obtain styled sr where sw: "switchLayerStyle d l t = (styled, sr)"
    by (cases "switchLayerStyle d l t")
  obtain l2 yr where sy: "switchSymbolMode d styled t = (l2, yr)"
    by (cases "switchSymbolMode d styled t")
  from switchLayerStyle_tally[OF sw] switchSymbolMode_tally[OF sy] assms None sw sy
  show ?thesis
    by (auto simp: processCurrentLayer_def catch_log_name_def Let_def add_result_def
             split: option.splits sum.splits bool.splits if_splits)
qed

section \<open>A second pass over the same layers\<close>

lemma trim_lower_mode:
  "t = MODES_LIGHT \<or> t = MODES_DARK \<Longrightarrow> trim (toLowerCase t) = t \<and> NAMING_SEPARATOR \<notin> set t"
  by (auto simp: codec_eval)

lemma detect_buildTargetName:
  assumes d: "detectCurrentMode n \<noteq> None" and t: "t = MODES_LIGHT \<or> t = MODES_DARK"
  shows "detectCurrentMode (buildTargetName n t) = Some t"
proof -
  from d have two: "2 \<le> length (split NAMING_SEPARATOR n)"
    by (auto simp: detectCurrentMode_def Let_def split: if_splits)
  from trim_lower_mode[OF t] have tl: "trim (toLowerCase t) = t" and ns: "NAMING_SEPARATOR \<notin> set t"
    by simp_all
  have sp: "split NAMING_SEPARATOR (buildTargetName n t) = (split NAMING_SEPARATOR n)[1 := t]"
    using two ns by (rule split_buildTargetName)
  have "(split NAMING_SEPARATOR n)[1 := t] ! 1 = t"
    using two by simp
  then show ?thesis
    unfolding detectCurrentMode_def sp using two tl t by (auto simp: Let_def)
qed

lemma find_style_name:
  "find (\<lambda>s. style_name s = n) catalog = Some x \<Longrightarrow> style_name x = n"
  by (auto simp: find_Some_iff)

lemma fault_of_simps [simp]:
  "fault_of (set_sharedStyle l v) c = fault_of l c"
  "fault_of (set_style l w) c = fault_of l c"
  "fault_of (changeInstanceToSymbol l m) c = fault_of l c"
  "fault_of (setOverrides l w) c = fault_of l c"
  "fault_of (set_layers l cs) c = fault_of l c"
  by (cases l; simp add: fault_of_def)+

lemma first_fault_same_faults:
  "faults l' = faults l \<Longrightarrow> first_fault l' cs = first_fault l cs"
  by (induction cs) (simp_all add: fault_of_def split: option.splits)

lemma layer_sel_simps [simp]:
  "layer_class (set_sharedStyle l v) = layer_class l"
  "layer_class (set_style l w) = layer_class l"
  "sharedStyle (set_sharedStyle l v) = v"
  "sharedStyle (set_style l w) = sharedStyle l"
  "symbolMaster (set_sharedStyle l v) = symbolMaster l"
  "symbolMaster (set_style l w) = symbolMaster l"
  "layers (set_sharedStyle l v) = layers l"
  "layers (set_style l w) = layers l"
  by (cases l; simp)+

lemma switchSharedStyle_again:
  assumes t: "t = MODES_LIGHT \<or> t = MODES_DARK"
    and s: "switchSharedStyle catalog l t = (l', r)"
  shows "switchSharedStyle catalog l' t = (l', \<lparr>switched = 0, skipped = 1\<rparr>) \<and>
         switched r + skipped r = 1 \<and> same_but_style l l'"
proof (cases "sharedStyle l")
  case None
  with s show ?thesis by (cases l) (auto simp: switchSharedStyle_def same_but_style_def)
next
  case (Some cur)
  show ?thesis
  proof (cases "detectCurrentMode (style_name cur) \<noteq> None \<and> detectCurrentMode (style_name cur) \<noteq> Some t")
    case False
    with s Some show ?thesis
      by (cases l) (auto simp: switchSharedStyle_def same_but_style_def Let_def)
  next
    case True
    then have db: "detectCurrentMode (buildTargetName (style_name cur) t) = Some t"
      using detect_buildTargetName t by blast
    show ?thesis
    proof (cases "find (\<lambda>style. style_name style = buildTargetName (style_name cur) t) catalog")
      case None
      with s Some True show ?thesis
        by (cases l) (auto simp: switchSharedStyle_def same_but_style_def Let_def)
    next
      case (Some target)
      then have tn: "style_name target = buildTargetName (style_name cur) t"
        by (rule find_style_name)
      from s \<open>sharedStyle l = Some cur\<close> True Some db tn show ?thesis
        by (cases l)
           (auto simp: switchSharedStyle_def same_but_style_def Let_def fault_of_def
                 split: option.splits)
    qed
  qed
qed

lemma switchLayerStyle_again:
  assumes t: "t = MODES_LIGHT \<or> t = MODES_DARK"
    and s: "switchLayerStyle d l t = (l', r)"
  shows "switchLayerStyle d l' t = (l', \<lparr>switched = 0, skipped = 1\<rparr>) \<and>
         switched r + skipped r = 1 \<and> same_but_style l l'"
proof -
  let ?reads = "[Call_name, Call_fromNative, Call_sharedStyle, Call_documentData, Call_style]"
  let ?catalog = "if layer_class l = ''MSTextLayer'' then sharedTextStyles d else sharedLayerStyles d"
  show ?thesis
  proof (cases "fault_of l Call_class = None \<and> first_fault l ?reads = None")
    case False
    with s have "l' = l" and "r = \<lparr>switched = 0, skipped = 1\<rparr>"
      by (auto simp: switchLayerStyle_def split: option.splits if_splits)
    with False show ?thesis
      by (auto simp: switchLayerStyle_def same_but_style_def split: option.splits if_splits)
  next
    case True
    with s have sw: "switchSharedStyle ?catalog l t = (l', r)"
      by (auto simp: switchLayerStyle_def split: option.splits if_splits)
    from switchSharedStyle_again[OF t sw]
    have again: "switchSharedStyle ?catalog l' t = (l', \<lparr>switched = 0, skipped = 1\<rparr>)"
      and one: "switched r + skipped r = 1" and same: "same_but_style l l'"
      by simp_all
    from same have f: "faults l' = faults l" and c: "layer_class l' = layer_class l"
      by (simp_all add: same_but_style_def)
    from True f have "fault_of l' Call_class = None \<and> first_fault l' ?reads = None"
      using first_fault_same_faults[OF f, of ?reads] by (simp add: fault_of_def)
    with again c have "switchLayerStyle d l' t = (l', \<lparr>switched = 0, skipped = 1\<rparr>)"
      by (auto simp: switchLayerStyle_def split: option.splits if_splits)
    with one same show ?thesis by simp
  qed
qed

lemma isSymbolInstance_same:
  "same_but_style l l' \<Longrightarrow> isSymbolInstance l' = isSymbolInstance l"
  by (simp add: same_but_style_def isSymbolInstance_def fault_of_def split: option.splits)

lemma same_but_style_refl [simp]: "same_but_style l l"
  by (simp add: same_but_style_def)

lemma add_result_zero [simp]:
  "add_result \<lparr>switched = 0, skipped = 0\<rparr> r = r"
  "add_result r \<lparr>switched = 0, skipped = 0\<rparr> = r"
  by (simp_all add: add_result_def)

lemma add_result_assoc: "add_result (add_result a b) c = add_result a (add_result b c)"
  by (simp add: add_result_def add.assoc)

lemma switchSharedStyle_same:
  "switchSharedStyle catalog l t = (l', r) \<Longrightarrow> same_but_style l l'"
  by (cases l)
     (auto simp: switchSharedStyle_def same_but_style_def Let_def
           split: option.splits if_splits)

lemma switchLayerStyle_same:
  "switchLayerStyle d l t = (l', r) \<Longrightarrow> same_but_style l l'"
  by (auto simp: switchLayerStyle_def dest: switchSharedStyle_same split: option.splits if_splits)

lemma name_ok_after_style:
  assumes "first_fault l [Call_name, Call_class] = None"
    and "switchLayerStyle d l t = (styled, sr)"
  shows "fault_of styled Call_name = None"
proof -
  from assms(2) have "faults styled = faults l"
    by (auto dest: switchLayerStyle_same simp: same_but_style_def)
  with assms(1) show ?thesis
    by (simp add: fault_of_def split: option.splits)
qed

lemma processCurrentLayer_Inl_name:
  assumes "processCurrentLayer d l t = (l', Inl e)"
  shows "l' = l \<and> fault_of l Call_name = Some e"
proof (cases "first_fault l [Call_name, Call_class]")
  case (Some x)
  with assms show ?thesis
    by (auto simp: processCurrentLayer_def catch_log_name_def split: option.splits)
next
  case None
  obtain styled sr where sw: "switchLayerStyle d l t = (styled, sr)"
    by (cases "switchLayerStyle d l t")
  from name_ok_after_style[OF None sw] have "fault_of styled Call_name = None" .
  with assms None sw show ?thesis
    by (auto simp: processCurrentLayer_def catch_log_name_def Let_def
             split: sum.splits bool.splits if_splits prod.splits)
qed

lemma processCurrentLayer_Inr_name:
  assumes "processCurrentLayer d l t = (l', Inr r)"
  shows "fault_of l Call_name = None"
proof (cases "first_fault l [Call_name, Call_class]")
  case (Some x)
  with assms show ?thesis
    by (auto simp: processCurrentLayer_def catch_log_name_def split: option.splits)
next
  case None
  then show ?thesis by (simp split: option.splits)
qed

lemma processCurrentLayer_again:
  assumes t: "t = MODES_LIGHT \<or> t = MODES_DARK"
    and ns: "isSymbolInstance l \<noteq> Inr True"
    and p: "processCurrentLayer d l t = (l', res)"
  shows "same_but_style l l' \<and>
         (case res of
            Inl e \<Rightarrow> processCurrentLayer d l' t = (l', Inl e)
          | Inr r \<Rightarrow>
              processCurrentLayer d l' t =
                (l', Inr \<lparr>switched = 0, skipped = switched r + skipped r\<rparr>))"
proof (cases "first_fault l [Call_name, Call_class]")
  case (Some e)
  with p have "l' = l" and "res = catch_log_name l \<lparr>switched = 0, skipped = 0\<rparr>"
    by (auto simp: processCurrentLayer_def)
  with Some show ?thesis
    by (auto simp: processCurrentLayer_def catch_log_name_def split: option.splits)
next
  case None
  obtain styled sr where sw: "switchLayerStyle d l t = (styled, sr)"
    by (cases "switchLayerStyle d l t")
  from switchLayerStyle_again[OF t sw]
  have again: "switchLayerStyle d styled t = (styled, \<lparr>switched = 0, skipped = 1\<rparr>)"
    and one: "switched sr + skipped sr = 1" and same: "same_but_style l styled"
    by simp_all
  from same have f: "faults styled = faults l"
    by (simp add: same_but_style_def)
  have ff: "first_fault styled [Call_name, Call_class] = None"
    using None by (simp only: first_fault_same_faults[OF f])
  have nm: "fault_of styled Call_name = None"
    using None sw by (rule name_ok_after_style)
  have isi: "isSymbolInstance styled = isSymbolInstance l"
    using same by (rule isSymbolInstance_same)
  from p None sw ns isi nm have l': "l' = styled" and res: "res = Inr sr"
    by (auto simp: processCurrentLayer_def catch_log_name_def Let_def
             split: sum.splits bool.splits if_splits)
  have "processCurrentLayer d styled t = (styled, Inr \<lparr>switched = 0, skipped = 1\<rparr>)"
    using ff again ns isi nm
    by (auto simp: processCurrentLayer_def catch_log_name_def Let_def
             split: sum.splits bool.splits)
  with l' res one same show ?thesis by simp
qed

lemma processLayer_Inl:
  "processCurrentLayer d l t = (layer, Inl e) \<Longrightarrow>
   processLayer d t l = (layer, catch_log_name layer \<lparr>switched = 0, skipped = 0\<rparr>)"
  by (cases l) simp

lemma processLayer_Inr_fault:
  "processCurrentLayer d l t = (layer, Inr r) \<Longrightarrow> fault_of layer Call_layers = Some e \<Longrightarrow>
   processLayer d t l = (layer, catch_log_name layer r)"
  by (cases l) simp

lemma processLayer_Inr:
  "processCurrentLayer d l t = (layer, Inr r) \<Longrightarrow> fault_of layer Call_layers = None \<Longrightarrow>
   processLayers d t (layers l) r = (children, r', err) \<Longrightarrow>
   processLayer d t l =
     (set_layers layer children,
      case err of None \<Rightarrow> Inr r' | Some e \<Rightarrow> catch_log_name layer r')"
  by (cases l) (auto split: option.splits)

lemma processLayers_acc:
  "processLayers d t ls acc =
     (case processLayers d t ls \<lparr>switched = 0, skipped = 0\<rparr> of
        (ls', r, err) \<Rightarrow> (ls', add_result acc r, err))"
proof (induction ls arbitrary: acc)
  case Nil
  show ?case by simp
next
  case (Cons c rest)
  show ?case
  proof (cases "processLayer d t c")
    case (Pair c' res)
    show ?thesis
    proof (cases res)
      case (Inl e)
      with Pair show ?thesis by simp
    next
      case (Inr cr)
      obtain rest' rr err where z: "processLayers d t rest \<lparr>switched = 0, skipped = 0\<rparr> = (rest', rr, err)"
        by (cases "processLayers d t rest \<lparr>switched = 0, skipped = 0\<rparr>") auto
      have a: "processLayers d t rest (add_result acc cr) = (rest', add_result (add_result acc cr) rr, err)"
        using Cons.IH[of "add_result acc cr"] z by simp
      have b: "processLayers d t rest cr = (rest', add_result cr rr, err)"
        using Cons.IH[of cr] z by simp
      show ?thesis
        using Pair Inr a b by (simp add: add_result_assoc)
    qed
  qed
qed

lemma first_fault_set_layers [simp]: "first_fault (set_layers l cs) calls = first_fault l calls"
  by (induction calls) (simp_all split: option.splits)

lemma set_layers_sel [simp]:
  "layer_class (set_layers l cs) = layer_class l"
  "sharedStyle (set_layers l cs) = sharedStyle l"
  "symbolMaster (set_layers l cs) = symbolMaster l"
  "overrides (set_layers l cs) = overrides l"
  "layers (set_layers l cs) = cs"
  "faults (set_layers l cs) = faults l"
  by (cases l; simp)+

lemma set_layers_commute [simp]:
  "set_sharedStyle (set_layers l cs) v = set_layers (set_sharedStyle l v) cs"
  "set_style (set_layers l cs) w = set_layers (set_style l w) cs"
  "changeInstanceToSymbol (set_layers l cs) m = set_layers (changeInstanceToSymbol l m) cs"
  "setOverrides (set_layers l cs) w = set_layers (setOverrides l w) cs"
  by (cases l; simp)+

lemma isSymbolInstance_set_layers [simp]:
  "isSymbolInstance (set_layers l cs) = isSymbolInstance l"
  by (simp add: isSymbolInstance_def split: option.splits)

lemma catch_log_name_set_layers [simp]:
  "catch_log_name (set_layers l cs) r = catch_log_name l r"
  by (simp add: catch_log_name_def)

lemma switchSharedStyle_set_layers:
  "switchSharedStyle catalog (set_layers l cs) t =
     (case switchSharedStyle catalog l t of (l', r) \<Rightarrow> (set_layers l' cs, r))"
  by (simp add: switchSharedStyle_def Let_def split: option.splits)

lemma switchLayerStyle_set_layers:
  "switchLayerStyle d (set_layers l cs) t =
     (case switchLayerStyle d l t of (l', r) \<Rightarrow> (set_layers l' cs, r))"
  by (simp add: switchLayerStyle_def switchSharedStyle_set_layers split: option.splits)

lemma switchSymbolMode_set_layers:
  "switchSymbolMode d (set_layers l cs) t =
     (case switchSymbolMode d l t of (l', r) \<Rightarrow> (set_layers l' cs, r))"
  by (simp add: switchSymbolMode_def Let_def split: option.splits)

lemma processCurrentLayer_set_layers:
  "processCurrentLayer d (set_layers l cs) t =
     (case processCurrentLayer d l t of (l', res) \<Rightarrow> (set_layers l' cs, res))"
  by (simp add: processCurrentLayer_def switchLayerStyle_set_layers switchSymbolMode_set_layers
        Let_def split: option.splits prod.splits sum.splits bool.splits)

lemma noSymbolInstance_unfold:
  "noSymbolInstance l \<longleftrightarrow> isSymbolInstance l \<noteq> Inr True \<and> list_all noSymbolInstance (layers l)"
  by (cases l) simp

lemma set_layers_twice [simp]: "set_layers (set_layers l cs) cs' = set_layers l cs'"
  by (cases l) simp

lemma set_layers_same: "layers l = cs \<Longrightarrow> set_layers l cs = l"
  by (cases l) simp

lemma processLayers_again:
  assumes "\<And>c c' res. c \<in> set ls \<Longrightarrow> noSymbolInstance c \<Longrightarrow> processLayer d t c = (c', res) \<Longrightarrow>
             passes_again d t c' res"
    and "list_all noSymbolInstance ls"
    and "processLayers d t ls \<lparr>switched = 0, skipped = 0\<rparr> = (ls', r, err)"
  shows "list_all noSymbolInstance ls' \<and>
         processLayers d t ls' \<lparr>switched = 0, skipped = 0\<rparr> =
           (ls', \<lparr>switched = 0, skipped = switched r + skipped r\<rparr>, err)"
  using assms
proof (induction ls arbitrary: ls' r err)
  case Nil
  then show ?case by auto
next
  case (Cons c rest)
  from Cons.prems(2) have nc: "noSymbolInstance c" and nrest: "list_all noSymbolInstance rest"
    by simp_all
  obtain c' res where pc: "processLayer d t c = (c', res)"
    by (cases "processLayer d t c")
  have pa: "passes_again d t c' res"
    using Cons.prems(1)[of c c' res] nc pc by simp
  show ?case
  proof (cases res)
    case (Inl e)
    with Cons.prems(3) pc have eq: "ls' = c' # rest" "r = \<lparr>switched = 0, skipped = 0\<rparr>" "err = Some e"
      by auto
    from pa Inl have "noSymbolInstance c'" and "processLayer d t c' = (c', Inl e)"
      by (simp_all add: passes_again_def)
    with eq nrest show ?thesis by simp
  next
    case (Inr cr)
    obtain rest' rr err' where z:
      "processLayers d t rest \<lparr>switched = 0, skipped = 0\<rparr> = (rest', rr, err')"
      by (cases "processLayers d t rest \<lparr>switched = 0, skipped = 0\<rparr>") auto
    have "processLayers d t rest cr = (rest', add_result cr rr, err')"
      using processLayers_acc[of d t rest cr] z by simp
    with Cons.prems(3) pc Inr have eq: "ls' = c' # rest'" "r = add_result cr rr" "err = err'"
      by auto
    have ih: "list_all noSymbolInstance rest' \<and>
        processLayers d t rest' \<lparr>switched = 0, skipped = 0\<rparr> =
          (rest', \<lparr>switched = 0, skipped = switched rr + skipped rr\<rparr>, err')"
    proof (rule Cons.IH[OF _ nrest z])
      fix x x' resx
      assume "x \<in> set rest" and "noSymbolInstance x" and "processLayer d t x = (x', resx)"
      then show "passes_again d t x' resx"
        using Cons.prems(1)[of x x' resx] by simp
    qed
    from pa Inr have c1: "noSymbolInstance c'"
      and c2: "processLayer d t c' = (c', Inr \<lparr>switched = 0, skipped = switched cr + skipped cr\<rparr>)"
      by (simp_all add: passes_again_def)
    have "processLayers d t rest' \<lparr>switched = 0, skipped = switched cr + skipped cr\<rparr> =
        (rest', add_result \<lparr>switched = 0, skipped = switched cr + skipped cr\<rparr>
                  \<lparr>switched = 0, skipped = switched rr + skipped rr\<rparr>, err')"
      using processLayers_acc[of d t rest' "\<lparr>switched = 0, skipped = switched cr + skipped cr\<rparr>"] ih
      by simp
    with c1 c2 ih eq show ?thesis
      by (simp add: add_result_def)
  qed
qed

lemma processLayer_again:
  assumes t: "t = MODES_LIGHT \<or> t = MODES_DARK"
  shows "noSymbolInstance l \<Longrightarrow> processLayer d t l = (l', res) \<Longrightarrow> passes_again d t l' res"
proof (induction l arbitrary: l' res)
  case (Layer n c ss st sm ov cs fl)
  let ?L = "Layer n c ss st sm ov cs fl"
  from Layer.prems(1) have ns: "isSymbolInstance ?L \<noteq> Inr True"
    and ncs: "list_all noSymbolInstance cs"
    by simp_all
  obtain l1 res1 where p1: "processCurrentLayer d ?L t = (l1, res1)"
    by (cases "processCurrentLayer d ?L t")
  from processCurrentLayer_again[OF t ns p1]
  have same: "same_but_style ?L l1"
    and again1: "case res1 of
            Inl e \<Rightarrow> processCurrentLayer d l1 t = (l1, Inl e)
          | Inr r \<Rightarrow> processCurrentLayer d l1 t =
                (l1, Inr \<lparr>switched = 0, skipped = switched r + skipped r\<rparr>)"
    by simp_all
  from same have l1cs: "layers l1 = cs" and l1f: "faults l1 = fl"
    by (simp_all add: same_but_style_def)
  have isi1: "isSymbolInstance l1 \<noteq> Inr True"
    using ns isSymbolInstance_same[OF same] by simp
  have fo: "\<And>call. fault_of l1 call = fault_of ?L call"
    using l1f by (simp add: fault_of_def)
  show ?case
  proof (cases res1)
    case (Inl e)
    from processCurrentLayer_Inl_name[OF p1[unfolded Inl]]
    have l1: "l1 = ?L" and nm: "fault_of ?L Call_name = Some e"
      by simp_all
    have pl: "processLayer d t ?L = (?L, Inl e)"
      using processLayer_Inl[OF p1[unfolded Inl]] l1 nm by (simp add: catch_log_name_def)
    with Layer.prems(2) have "l' = ?L" "res = Inl e" by simp_all
    with pl Layer.prems(1) show ?thesis
      unfolding passes_again_def by simp
  next
    case (Inr r1)
    have nm: "fault_of l1 Call_name = None"
      using processCurrentLayer_Inr_name[OF p1[unfolded Inr]] fo by simp
    have a1: "processCurrentLayer d l1 t =
        (l1, Inr \<lparr>switched = 0, skipped = switched r1 + skipped r1\<rparr>)"
      using again1 Inr by simp
    show ?thesis
    proof (cases "fault_of l1 Call_layers")
      case (Some e)
      have pl: "processLayer d t ?L = (l1, Inr r1)"
        using processLayer_Inr_fault[OF p1[unfolded Inr] Some] nm
        by (simp add: catch_log_name_def)
      with Layer.prems(2) have eq: "l' = l1" "res = Inr r1" by simp_all
      have "processLayer d t l1 = (l1, Inr \<lparr>switched = 0, skipped = switched r1 + skipped r1\<rparr>)"
        using processLayer_Inr_fault[OF a1 Some] nm by (simp add: catch_log_name_def)
      moreover have "noSymbolInstance l1"
        using isi1 l1cs ncs by (simp add: noSymbolInstance_unfold)
      ultimately show ?thesis
        unfolding passes_again_def eq by simp
    next
      case None
      obtain cs' rr err where z:
        "processLayers d t cs \<lparr>switched = 0, skipped = 0\<rparr> = (cs', rr, err)"
        by (cases "processLayers d t cs \<lparr>switched = 0, skipped = 0\<rparr>") auto
      have pcs: "processLayers d t (layers ?L) r1 = (cs', add_result r1 rr, err)"
        using processLayers_acc[of d t cs r1] z by simp
      have pl: "processLayer d t ?L = (set_layers l1 cs', Inr (add_result r1 rr))"
        using processLayer_Inr[OF p1[unfolded Inr] None pcs] nm
        by (simp add: catch_log_name_def split: option.splits)
      with Layer.prems(2) have eq: "l' = set_layers l1 cs'" "res = Inr (add_result r1 rr)"
        by simp_all
      have kids: "list_all noSymbolInstance cs' \<and>
          processLayers d t cs' \<lparr>switched = 0, skipped = 0\<rparr> =
            (cs', \<lparr>switched = 0, skipped = switched rr + skipped rr\<rparr>, err)"
        using processLayers_again[OF _ ncs z] Layer.IH by blast
      let ?l2 = "set_layers l1 cs'"
      have a2: "processCurrentLayer d ?l2 t =
          (?l2, Inr \<lparr>switched = 0, skipped = switched r1 + skipped r1\<rparr>)"
        using a1 by (simp add: processCurrentLayer_set_layers)
      have f2: "fault_of ?l2 Call_layers = None" and n2: "fault_of ?l2 Call_name = None"
        using None nm by simp_all
      have p2: "processLayers d t (layers ?l2) \<lparr>switched = 0, skipped = switched r1 + skipped r1\<rparr> =
          (cs', add_result \<lparr>switched = 0, skipped = switched r1 + skipped r1\<rparr>
                  \<lparr>switched = 0, skipped = switched rr + skipped rr\<rparr>, err)"
        using processLayers_acc[of d t cs' "\<lparr>switched = 0, skipped = switched r1 + skipped r1\<rparr>"] kids
        by simp
      have "processLayer d t ?l2 =
          (?l2, Inr \<lparr>switched = 0, skipped = switched (add_result r1 rr) + skipped (add_result r1 rr)\<rparr>)"
        using processLayer_Inr[OF a2 f2 p2] n2
        by (simp add: catch_log_name_def add_result_def split: option.splits)
      moreover have "noSymbolInstance ?l2"
        using isi1 kids by (simp add: noSymbolInstance_unfold)
      ultimately show ?thesis
        unfolding passes_again_def eq by simp
    qed
  qed
qed

lemma processLayers_length:
  "processLayers d t ls acc = (ls', r, err) \<Longrightarrow> length ls' = length ls"
proof (induction ls arbitrary: acc ls' r err)
  case Nil
  then show ?case by simp
next
  case (Cons c rest)
  then show ?case
    by (auto split: prod.splits sum.splits)
qed

text \<open>
  Claim C7, as stated, fails. A symbol instance of \<open>button/light/primary\<close> that
  carries the shared style \<open>card/light/surface\<close> is switched on the first pass to
  dark (its style), so one node succeeded. The second pass does not yield
  \<open>{switched: 0, skipped: 1}\<close>: it skips the style, now dark, and then switches the
  symbol, which the first pass had left alone, and reports \<open>1 changed, 1 skipped\<close>.
\<close>

theorem styled_symbol_switched_on_second_pass:
  "switchMode
     (switchMode \<lparr>selection = [styledButton], doc = exampleDocument, shown = []\<rparr> MODES_DARK)
     MODES_DARK =
   \<lparr>selection = [styledButton2], doc = exampleDocument,
    shown = [''Switched to Dark Mode: 1 changed, 0 skipped'',
             ''Switched to Dark Mode: 1 changed, 1 skipped'']\<rparr>"
  by (simp add: engine_eval example_defs codec_eval)

text \<open>
  The second pass over the selection of claim C1: the instance, now dark and without a
  shared style, is counted as skipped twice.
\<close>

lemma second_pass_scenario_A:
  "switchMode (switchMode \<lparr>selection = [lightButton], doc = exampleDocument, shown = []\<rparr> MODES_DARK)
       MODES_DARK =
     \<lparr>selection = [darkButton], doc = exampleDocument,
      shown = [''Switched to Dark Mode: 1 changed, 1 skipped'',
               ''Switched to Dark Mode: 0 changed, 2 skipped'']\<rparr>"
  by (simp add: engine_eval example_defs codec_eval)

text \<open>
  Claim C7, amended. Take a selection whose subtrees hold no symbol instance, a target
  mode \<open>light\<close> or \<open>dark\<close>, and a first pass that ran to its end with the tally
  \<open>{S, K}\<close>. A second pass with the same target changes no layer, switches nothing
  and skips \<open>S + K\<close>: every layer whose shared style the first pass switched now
  carries a style named for the target mode, is detected as already in that mode and
  is skipped. When all \<open>N\<close> layers were switched on the first pass, the second pass
  yields \<open>{0, N}\<close>, and the two messages shown are the two tallies.
\<close>

theorem second_pass_skips_all:
  assumes t: "t = MODES_LIGHT \<or> t = MODES_DARK"
    and ns: "list_all noSymbolInstance sel"
    and p: "processLayers d t sel \<lparr>switched = 0, skipped = 0\<rparr> = (sel', r, None)"
  shows "processLayers d t sel' \<lparr>switched = 0, skipped = 0\<rparr> =
           (sel', \<lparr>switched = 0, skipped = switched r + skipped r\<rparr>, None) \<and>
         (sel \<noteq> [] \<longrightarrow>
            switchMode (switchMode \<lparr>selection = sel, doc = d, shown = []\<rparr> t) t =
              \<lparr>selection = sel', doc = d,
               shown =
                 [''Switched to '' @ modeText t @ '' Mode: '' @ nat_to_string (switched r) @
                    '' changed, '' @ nat_to_string (skipped r) @ '' skipped'',
                  ''Switched to '' @ modeText t @ '' Mode: '' @ nat_to_string 0 @
                    '' changed, '' @ nat_to_string (switched r + skipped r) @ '' skipped'']\<rparr>)"
proof -
  have again: "processLayers d t sel' \<lparr>switched = 0, skipped = 0\<rparr> =
      (sel', \<lparr>switched = 0, skipped = switched r + skipped r\<rparr>, None)"
    using processLayers_again[OF _ ns p] processLayer_again[OF t] by blast
  have "sel' \<noteq> []" if "sel \<noteq> []"
    using processLayers_length[OF p] that by auto
  with p again show ?thesis
    by (simp add: switchMode_def showMessage_def)
qed

theorem second_pass_skips_all_witness:
  "(MODES_DARK = MODES_LIGHT \<or> MODES_DARK = MODES_DARK) \<and>
   list_all noSymbolInstance [lightText] \<and>
   processLayers exampleDocument MODES_DARK [lightText] \<lparr>switched = 0, skipped = 0\<rparr> =
     ([switchedText], \<lparr>switched = 1, skipped = 0\<rparr>, None) \<and>
   processLayers exampleDocument MODES_DARK [switchedText] \<lparr>switched = 0, skipped = 0\<rparr> =
     ([switchedText], \<lparr>switched = 0, skipped = 1\<rparr>, None) \<and>
   switchMode (switchMode \<lparr>selection = [lightText], doc = exampleDocument, shown = []\<rparr> MODES_DARK)
       MODES_DARK =
     \<lparr>selection = [switchedText], doc = exampleDocument,
      shown = [''Switched to Dark Mode: 1 changed, 0 skipped'',
               ''Switched to Dark Mode: 0 changed, 1 skipped'']\<rparr>"
proof -
  have t: "MODES_DARK = MODES_LIGHT \<or> MODES_DARK = MODES_DARK"
    by simp
  have ns: "list_all noSymbolInstance [lightText]"
    by (simp add: lightText_def isSymbolInstance_def fault_of_def)
  have p: "processLayers exampleDocument MODES_DARK [lightText] \<lparr>switched = 0, skipped = 0\<rparr> =
      ([switchedText], \<lparr>switched = 1, skipped = 0\<rparr>, None)"
    by (simp add: engine_eval example_defs codec_eval)
  have m: "modeText MODES_DARK = ''Dark''" "nat_to_string 0 = ''0''" "nat_to_string 1 = ''1''"
    "nat_to_string (Suc 0) = ''1''"
    by (simp_all add: engine_eval codec_eval)
  show ?thesis
    using second_pass_skips_all[OF t ns p] t ns p by (simp add: m)
qed

end
